theory Spec2Isabelle
  imports Complex_Main "HOL-Library.Char_ord" "HOL-Library.List_Lexorder"
begin

section \<open>Record store of the movie review server\<close>

text \<open>
  The server (\<^verbatim>\<open>backend/server.js\<close>) keeps four module-level arrays: \<^verbatim>\<open>movies\<close>,
  \<^verbatim>\<open>users\<close>, \<^verbatim>\<open>reviews\<close> and \<^verbatim>\<open>watchlists\<close>. Each array is a list here, each
  object a record. Integer-valued JavaScript numbers (ids, years, star ratings) are
  \<open>int\<close>; the average rating, which has one decimal, is a \<open>rat\<close>, and the arithmetic
  on it is exact. Strings are byte lists. The \<^verbatim>\<open>reviews\<close> array inside a movie object is empty in every movie the
  server stores and is overwritten wherever a movie is sent with its reviews, so the
  record has no such field.
\<close>

record movie =
  m_id :: int
  title :: string
  genre :: "string list"
  releaseYear :: int
  director :: string
  cast :: "string list"
  synopsis :: string
  posterUrl :: string
  averageRating :: rat

record user =
  u_id :: int
  username :: string
  email :: string
  password :: string
  profilePicture :: string
  joinDate :: string

record review =
  r_id :: int
  movieId :: int
  userId :: int
  rating :: int
  reviewText :: string
  timestamp :: string

record watchlist_item =
  w_id :: int
  w_userId :: int
  w_movieId :: int
  dateAdded :: string

record state =
  movies :: "movie list"
  users :: "user list"
  reviews :: "review list"
  watchlists :: "watchlist_item list"

text \<open>The seeded store (lines 16--57): three movies, no users, reviews or watchlist
  items.\<close>

definition seed_movies :: "movie list" where
  "seed_movies =
    [\<lparr>m_id = 1, title = ''The Shawshank Redemption'', genre = [''Drama''],
      releaseYear = 1994, director = ''Frank Darabont'',
      cast = [''Tim Robbins'', ''Morgan Freeman'', ''Bob Gunton''],
      synopsis = ''Two imprisoned men bond over a number of years, finding solace and eventual redemption through acts of common decency.'',
      posterUrl = ''https://via.placeholder.com/300x450?text=Shawshank'',
      averageRating = 48 / 10\<rparr>,
     \<lparr>m_id = 2, title = ''The Godfather'', genre = [''Crime'', ''Drama''],
      releaseYear = 1972, director = ''Francis Ford Coppola'',
      cast = [''Marlon Brando'', ''Al Pacino'', ''James Caan''],
      synopsis = ''The aging patriarch of an organized crime dynasty transfers control of his clandestine empire to his reluctant son.'',
      posterUrl = ''https://via.placeholder.com/300x450?text=Godfather'',
      averageRating = 47 / 10\<rparr>,
     \<lparr>m_id = 3, title = ''Pulp Fiction'', genre = [''Crime'', ''Drama''],
      releaseYear = 1994, director = ''Quentin Tarantino'',
      cast = [''John Travolta'', ''Uma Thurman'', ''Samuel L. Jackson''],
      synopsis = ''The lives of two mob hitmen, a boxer, a gangster and his wife intertwine in four tales of violence and redemption.'',
      posterUrl = ''https://via.placeholder.com/300x450?text=Pulp+Fiction'',
      averageRating = 46 / 10\<rparr>]"

definition initial_state :: state where
  "initial_state = \<lparr>movies = seed_movies, users = [], reviews = [], watchlists = []\<rparr>"

text \<open>
  The responses of the server are JSON bodies with a status code. A failure is one of
  the following, named after the specification's taxonomy:
  \<^item> \<open>ValidationError\<close>: status 400 with the validator's \<^verbatim>\<open>errors\<close> array;
  \<^item> \<open>NotFound\<close>: status 404 (\<^verbatim>\<open>Movie not found\<close>, \<^verbatim>\<open>User not found\<close>,
    \<^verbatim>\<open>Movie not in watchlist\<close>, \<^verbatim>\<open>Route not found\<close>);
  \<^item> \<open>Conflict\<close>: status 400 with \<^verbatim>\<open>You have already reviewed this movie\<close> or
    \<^verbatim>\<open>Movie already in watchlist\<close>;
  \<^item> \<open>Forbidden\<close>: status 403 (\<^verbatim>\<open>Not authorized to ...\<close>);
  \<^item> \<open>Internal\<close>: status 500, sent by the \<^verbatim>\<open>catch\<close> block of a handler.
\<close>

datatype error = ValidationError | NotFound | Conflict | Forbidden | Internal

section \<open>JavaScript library functions the server calls\<close>

text \<open>\<^verbatim>\<open>Math.round\<close> returns the nearest integer, a tie going towards plus infinity.\<close>

definition math_round :: "rat \<Rightarrow> int" where
  "math_round x = \<lfloor>x + 1 / 2\<rfloor>"

text \<open>\<^verbatim>\<open>String.prototype.toLowerCase\<close>, on the ASCII letters.\<close>

definition toLowerCaseChar :: "char \<Rightarrow> char" where
  "toLowerCaseChar c =
    (if CHR ''A'' \<le> c \<and> c \<le> CHR ''Z'' then char_of (of_char c + (32::nat)) else c)"

definition toLowerCase :: "string \<Rightarrow> string" where
  "toLowerCase s = map toLowerCaseChar s"

fun startsWith :: "string \<Rightarrow> string \<Rightarrow> bool" where
  "startsWith s [] = True"
| "startsWith [] (c # t) = False"
| "startsWith (d # s) (c # t) = (d = c \<and> startsWith s t)"

text \<open>\<^verbatim>\<open>String.prototype.includes\<close>: the argument occurs as a substring.\<close>

fun includes_str :: "string \<Rightarrow> string \<Rightarrow> bool" where
  "includes_str [] t = (t = [])"
| "includes_str (c # s) t = (startsWith (c # s) t \<or> includes_str s t)"

text \<open>White space as \<^verbatim>\<open>trim\<close> and \<^verbatim>\<open>parseInt\<close> skip it (the ASCII part): tab, line feed,
  vertical tab, form feed, carriage return, space.\<close>

definition isWhiteSpace :: "char \<Rightarrow> bool" where
  "isWhiteSpace c \<longleftrightarrow> c \<in> {CHR 0x09, CHR 0x0A, CHR 0x0B, CHR 0x0C, CHR 0x0D, CHR 0x20}"

definition trim :: "string \<Rightarrow> string" where
  "trim s = rev (dropWhile isWhiteSpace (rev (dropWhile isWhiteSpace s)))"

definition isDigit :: "char \<Rightarrow> bool" where
  "isDigit c \<longleftrightarrow> CHR ''0'' \<le> c \<and> c \<le> CHR ''9''"

definition isHexDigit :: "char \<Rightarrow> bool" where
  "isHexDigit c \<longleftrightarrow> isDigit c \<or> (CHR ''a'' \<le> c \<and> c \<le> CHR ''f'') \<or> (CHR ''A'' \<le> c \<and> c \<le> CHR ''F'')"

definition digitValue :: "char \<Rightarrow> int" where
  "digitValue c =
    (if isDigit c then int (of_char c) - 48
     else if CHR ''a'' \<le> c \<and> c \<le> CHR ''f'' then int (of_char c) - 87
     else int (of_char c) - 55)"

text \<open>
  \<^verbatim>\<open>parseInt(string)\<close> with no radix: leading white space and one sign are skipped, a
  \<^verbatim>\<open>0x\<close> prefix selects base 16, the longest prefix of digits is read, and the result
  is \<^verbatim>\<open>NaN\<close> (here \<open>None\<close>) when there is no digit. \<^verbatim>\<open>NaN\<close> is equal to no number.
\<close>

definition parseInt :: "string \<Rightarrow> int option" where
  "parseInt str =
    (let s = dropWhile isWhiteSpace str;
         negative = (s \<noteq> [] \<and> hd s = CHR ''-'');
         s = (if s \<noteq> [] \<and> (hd s = CHR ''+'' \<or> hd s = CHR ''-'') then tl s else s);
         hex = (startsWith s ''0x'' \<or> startsWith s ''0X'');
         ds = (if hex then takeWhile isHexDigit (drop 2 s) else takeWhile isDigit s);
         n = foldl (\<lambda>acc c. acc * (if hex then 16 else 10) + digitValue c) 0 ds
     in if ds = [] then None else Some (if negative then - n else n))"

text \<open>\<^verbatim>\<open>Number.prototype.toString\<close> of an integer: its decimal numeral.\<close>

fun digits10 :: "nat \<Rightarrow> string" where
  "digits10 n =
    (if n < 10 then [char_of (48 + n)] else digits10 (n div 10) @ [char_of (48 + n mod 10)])"

declare digits10.simps [simp del]

definition toString :: "int \<Rightarrow> string" where
  "toString i = (if i < 0 then CHR ''-'' # digits10 (nat (- i)) else digits10 (nat i))"

text \<open>
  \<^verbatim>\<open>encodeURIComponent\<close>: every byte of the UTF-8 string other than a letter, a digit or
  one of \<^verbatim>\<open>-_.!~*'()\<close> becomes \<^verbatim>\<open>%\<close> and two upper-case hexadecimal digits.
\<close>

definition hexChar :: "nat \<Rightarrow> char" where
  "hexChar n = (if n < 10 then char_of (48 + n) else char_of (55 + n))"

definition isUnreserved :: "char \<Rightarrow> bool" where
  "isUnreserved c \<longleftrightarrow>
    (CHR ''a'' \<le> c \<and> c \<le> CHR ''z'') \<or> (CHR ''A'' \<le> c \<and> c \<le> CHR ''Z'') \<or> isDigit c
    \<or> c \<in> {CHR ''-'', CHR ''_'', CHR ''.'', CHR ''!'', CHR ''~'', CHR ''*'', CHR 0x27,
      CHR ''('', CHR '')''}"

definition encodeURIComponent :: "string \<Rightarrow> string" where
  "encodeURIComponent s =
    concat (map (\<lambda>c. if isUnreserved c then [c]
      else [CHR ''%'', hexChar (of_char c div 16), hexChar (of_char c mod 16)]) s)"

text \<open>\<^verbatim>\<open>Array.prototype.findIndex\<close>: the first index whose element satisfies the test;
  \<open>None\<close> stands for the result \<^verbatim>\<open>-1\<close>.\<close>

fun findIndex :: "('a \<Rightarrow> bool) \<Rightarrow> 'a list \<Rightarrow> nat option" where
  "findIndex P [] = None"
| "findIndex P (x # xs) = (if P x then Some 0 else map_option Suc (findIndex P xs))"

text \<open>\<^verbatim>\<open>Array.prototype.splice(i, 1)\<close>: the element at index \<open>i\<close> is removed.\<close>

definition splice1 :: "nat \<Rightarrow> 'a list \<Rightarrow> 'a list" where
  "splice1 i xs = take i xs @ drop (Suc i) xs"

text \<open>
  \<^verbatim>\<open>Array.prototype.slice(start, end)\<close> on integers: a negative index counts from the
  end of the array, and both are clamped to the array.
\<close>

definition slice :: "'a list \<Rightarrow> int \<Rightarrow> int \<Rightarrow> 'a list" where
  "slice xs start fin =
    (let len = int (length xs);
         k = (if start < 0 then max (len + start) 0 else min start len);
         final = (if fin < 0 then max (len + fin) 0 else min fin len)
     in take (nat (final - k)) (drop (nat k) xs))"

text \<open>
  \<^verbatim>\<open>Array.prototype.sort(compare)\<close> is a stable sort: \<open>a\<close> comes before \<open>b\<close> when
  \<^verbatim>\<open>compare(a, b)\<close> is negative, and elements that compare equal keep their order. For
  a comparator that is a total preorder this fixes the result, which is the one the
  stable insertion sort below computes.
\<close>

fun insert_by :: "('a \<Rightarrow> 'a \<Rightarrow> rat) \<Rightarrow> 'a \<Rightarrow> 'a list \<Rightarrow> 'a list" where
  "insert_by compare x [] = [x]"
| "insert_by compare x (y # ys) =
    (if compare x y \<le> 0 then x # y # ys else y # insert_by compare x ys)"

definition array_sort :: "('a \<Rightarrow> 'a \<Rightarrow> rat) \<Rightarrow> 'a list \<Rightarrow> 'a list" where
  "array_sort compare xs = foldr (insert_by compare) xs []"

text \<open>
  \<^verbatim>\<open>String.prototype.localeCompare\<close> depends on the collation of the host; the listing
  takes it as a parameter. Comparison of the byte strings is one instance.
\<close>

definition byteCompare :: "string \<Rightarrow> string \<Rightarrow> rat" where
  "byteCompare a b = (if a < b then - 1 else if a = b then 0 else 1)"

section \<open>Rating aggregator\<close>

text \<open>
  \<^verbatim>\<open>calculateAverageRating\<close> (lines 78--84). It reads the global \<^verbatim>\<open>reviews\<close>, passed
  here as an argument, and returns one number: the average. The \<^verbatim>\<open>reduce\<close> is a left
  fold starting at 0.
\<close>

definition calculateAverageRating :: "review list \<Rightarrow> int \<Rightarrow> rat" where
  "calculateAverageRating rs mid =
    (let movieReviews = filter (\<lambda>review. movieId review = mid) rs in
     if length movieReviews = 0 then 0
     else
       let total = foldl (\<lambda>acc review. acc + of_int (rating review)) (0::rat) movieReviews
       in of_int (math_round ((total / of_int (int (length movieReviews))) * 10)) / 10)"

text \<open>
  The specification's wording of the rounding, independent of the code: \<open>y\<close> is \<open>x\<close>
  rounded to one decimal place, half up, when \<open>y\<close> is a whole number of tenths, lies
  within half a tenth of \<open>x\<close>, and is the upper of the two candidates on a tie.
\<close>

definition rounded_half_up_1dp :: "rat \<Rightarrow> rat \<Rightarrow> bool" where
  "rounded_half_up_1dp x y \<longleftrightarrow> frac (y * 10) = 0 \<and> x - 1 / 20 < y \<and> y \<le> x + 1 / 20"


section \<open>Catalog listing\<close>

text \<open>
  The query string of \<^verbatim>\<open>GET /api/movies\<close> (lines 190--242). A parameter that is absent
  is \<open>None\<close>. \<^verbatim>\<open>page\<close> and \<^verbatim>\<open>limit\<close> arrive as decimal numerals and are used as
  numbers; they are integers here.
\<close>

record query =
  q_page :: "int option"
  q_limit :: "int option"
  q_genre :: "string option"
  q_year :: "string option"
  q_search :: "string option"
  q_sortBy :: "string option"

record listing =
  l_movies :: "movie list"
  totalCount :: int
  currentPage :: int
  totalPages :: "int option"

text \<open>The defaults of the destructuring at line 192: a parameter that is absent takes
  its default.\<close>

definition pageParam :: "query \<Rightarrow> int" where
  "pageParam q = (case q_page q of None \<Rightarrow> 1 | Some page \<Rightarrow> page)"

definition limitParam :: "query \<Rightarrow> int" where
  "limitParam q = (case q_limit q of None \<Rightarrow> 10 | Some limit \<Rightarrow> limit)"

definition sortByParam :: "query \<Rightarrow> string" where
  "sortByParam q = (case q_sortBy q of None \<Rightarrow> ''title'' | Some sortBy \<Rightarrow> sortBy)"

text \<open>The three filters, in the order of the source. A filter is applied when its
  parameter is a non-empty string.\<close>

definition filterMovies :: "query \<Rightarrow> movie list \<Rightarrow> movie list" where
  "filterMovies q ms =
    (let filteredMovies = ms;
         filteredMovies =
           (case q_genre q of
              Some g \<Rightarrow>
                if g \<noteq> [] then
                  filter (\<lambda>movie. list_ex (\<lambda>g'. includes_str (toLowerCase g') (toLowerCase g))
                    (genre movie)) filteredMovies
                else filteredMovies
            | None \<Rightarrow> filteredMovies);
         filteredMovies =
           (case q_year q of
              Some y \<Rightarrow>
                if y \<noteq> [] then
                  filter (\<lambda>movie. toString (releaseYear movie) = y) filteredMovies
                else filteredMovies
            | None \<Rightarrow> filteredMovies);
         filteredMovies =
           (case q_search q of
              Some search \<Rightarrow>
                if search \<noteq> [] then
                  (let searchTerm = toLowerCase search in
                   filter (\<lambda>movie.
                     includes_str (toLowerCase (title movie)) searchTerm \<or>
                     includes_str (toLowerCase (director movie)) searchTerm \<or>
                     list_ex (\<lambda>actor. includes_str (toLowerCase actor) searchTerm) (cast movie))
                     filteredMovies)
                else filteredMovies
            | None \<Rightarrow> filteredMovies)
     in filteredMovies)"

text \<open>The comparator of the \<^verbatim>\<open>sort\<close> call (lines 216--226).\<close>

definition compareMovies :: "(string \<Rightarrow> string \<Rightarrow> rat) \<Rightarrow> string \<Rightarrow> movie \<Rightarrow> movie \<Rightarrow> rat" where
  "compareMovies localeCompare sortBy a b =
    (if sortBy = ''year'' then of_int (releaseYear b - releaseYear a)
     else if sortBy = ''rating'' then averageRating b - averageRating a
     else localeCompare (title a) (title b))"

text \<open>\<^verbatim>\<open>Math.ceil(length / limit)\<close>: a division by zero gives \<^verbatim>\<open>Infinity\<close> or \<^verbatim>\<open>NaN\<close>,
  which JSON writes as \<^verbatim>\<open>null\<close> (here \<open>None\<close>).\<close>

definition ceilDiv :: "nat \<Rightarrow> int \<Rightarrow> int option" where
  "ceilDiv n limit =
    (if limit = 0 then None else Some \<lceil>(of_int (int n) :: rat) / of_int limit\<rceil>)"

definition listMovies :: "(string \<Rightarrow> string \<Rightarrow> rat) \<Rightarrow> state \<Rightarrow> query \<Rightarrow> listing" where
  "listMovies localeCompare s q =
    (let page = pageParam q;
         limit = limitParam q;
         sortBy = sortByParam q;
         filteredMovies = filterMovies q (movies s);
         filteredMovies = array_sort (compareMovies localeCompare sortBy) filteredMovies;
         startIndex = (page - 1) * limit;
         endIndex = startIndex + limit;
         paginatedMovies = slice filteredMovies startIndex endIndex
     in \<lparr>l_movies = paginatedMovies,
         totalCount = int (length filteredMovies),
         currentPage = page,
         totalPages = ceilDiv (length filteredMovies) limit\<rparr>)"

text \<open>The handler registered for \<^verbatim>\<open>/api/movies/featured\<close> (lines 564--575).\<close>

definition featured :: "state \<Rightarrow> movie list" where
  "featured s = slice (array_sort (\<lambda>a b. averageRating b - averageRating a) (movies s)) 0 6"

section \<open>Movie details and reviews\<close>

record review_with_user =
  rw_review :: review
  rw_username :: string
  rw_userProfilePicture :: "string option"

record movie_with_reviews =
  mw_movie :: movie
  mw_reviews :: "review_with_user list"

text \<open>The join of a review with its author, as both read handlers do it.\<close>

definition withUser :: "user list \<Rightarrow> review \<Rightarrow> review_with_user" where
  "withUser us review =
    (case find (\<lambda>u. u_id u = userId review) us of
       Some user \<Rightarrow> \<lparr>rw_review = review, rw_username = username user,
                     rw_userProfilePicture = Some (profilePicture user)\<rparr>
     | None \<Rightarrow> \<lparr>rw_review = review, rw_username = ''Unknown User'',
                  rw_userProfilePicture = None\<rparr>)"

text \<open>\<^verbatim>\<open>GET /api/movies/:id\<close> (lines 244--273).\<close>

definition getMovie :: "state \<Rightarrow> string \<Rightarrow> error + movie_with_reviews" where
  "getMovie s idParam =
    (let movieId' = parseInt idParam in
     case find (\<lambda>m. Some (m_id m) = movieId') (movies s) of
       None \<Rightarrow> Inl NotFound
     | Some movie \<Rightarrow>
         (let movieReviews = filter (\<lambda>review. Some (movieId review) = movieId') (reviews s);
              reviewsWithUsers = map (withUser (users s)) movieReviews
          in Inr \<lparr>mw_movie = movie, mw_reviews = reviewsWithUsers\<rparr>))"

text \<open>\<^verbatim>\<open>GET /api/movies/:id/reviews\<close> (lines 310--328).\<close>

definition getMovieReviews :: "state \<Rightarrow> string \<Rightarrow> error + review_with_user list" where
  "getMovieReviews s idParam =
    (let movieId' = parseInt idParam;
         movieReviews = filter (\<lambda>review. Some (movieId review) = movieId') (reviews s);
         reviewsWithUsers = map (withUser (users s)) movieReviews
     in Inr reviewsWithUsers)"

text \<open>
  \<^verbatim>\<open>POST /api/movies\<close> (lines 275--307). \<open>maxYear\<close> is the year the server was started
  in, plus 5. The validators run on the body as sent; \<^verbatim>\<open>trim\<close> then rewrites the
  title and the director.
\<close>

record movie_request =
  mr_title :: string
  mr_genre :: "string list"
  mr_releaseYear :: int
  mr_director :: string
  mr_cast :: "string list option"
  mr_synopsis :: "string option"
  mr_posterUrl :: "string option"

definition createMovie :: "int \<Rightarrow> movie_request \<Rightarrow> state \<Rightarrow> (error + movie) \<times> state" where
  "createMovie maxYear req s =
    (if mr_title req = [] \<or> \<not> (1900 \<le> mr_releaseYear req \<and> mr_releaseYear req \<le> maxYear)
        \<or> mr_director req = []
     then (Inl ValidationError, s)
     else
       let title' = trim (mr_title req);
           newMovie = \<lparr>m_id = int (length (movies s)) + 1,
             title = title',
             genre = mr_genre req,
             releaseYear = mr_releaseYear req,
             director = trim (mr_director req),
             cast = (case mr_cast req of None \<Rightarrow> [] | Some c \<Rightarrow> c),
             synopsis = (case mr_synopsis req of None \<Rightarrow> [] | Some y \<Rightarrow> y),
             posterUrl =
               (case mr_posterUrl req of
                  Some p \<Rightarrow>
                    if p \<noteq> [] then p
                    else ''https://via.placeholder.com/300x450?text='' @ encodeURIComponent title'
                | None \<Rightarrow>
                    ''https://via.placeholder.com/300x450?text='' @ encodeURIComponent title'),
             averageRating = 0\<rparr>
       in (Inr newMovie, s\<lparr>movies := movies s @ [newMovie]\<rparr>))"

text \<open>
  \<^verbatim>\<open>POST /api/movies/:id/reviews\<close> (lines 330--385), for a request that carries a valid
  token of the account \<open>authUserId\<close>; \<open>now\<close> is the time stamp. The rating is a JSON
  number. The review is pushed and the movie's average stored before the author is looked
  up: when no account has the token's id, reading \<^verbatim>\<open>user.username\<close> throws, the
  \<^verbatim>\<open>catch\<close> block answers 500, and both writes stay. The number parsed from the path is
  the id of the movie found, written \<open>m_id movie\<close> where the source stores or passes it.
\<close>

definition addReview ::
    "int \<Rightarrow> string \<Rightarrow> int \<Rightarrow> string \<Rightarrow> string \<Rightarrow> state \<Rightarrow> (error + review_with_user) \<times> state" where
  "addReview authUserId idParam rating' reviewText' now s =
    (if \<not> (1 \<le> rating' \<and> rating' \<le> 5) \<or> reviewText' = [] then (Inl ValidationError, s)
     else
       let movieId' = parseInt idParam in
       case find (\<lambda>m. Some (m_id m) = movieId') (movies s) of
         None \<Rightarrow> (Inl NotFound, s)
       | Some movie \<Rightarrow>
           (case find (\<lambda>review. Some (movieId review) = movieId' \<and> userId review = authUserId)
                   (reviews s) of
              Some existingReview \<Rightarrow> (Inl Conflict, s)
            | None \<Rightarrow>
                let newReview = \<lparr>r_id = int (length (reviews s)) + 1,
                      movieId = m_id movie,
                      userId = authUserId,
                      rating = rating',
                      reviewText = trim reviewText',
                      timestamp = now\<rparr>;
                    s1 = s\<lparr>reviews := reviews s @ [newReview]\<rparr>
                in case findIndex (\<lambda>m. Some (m_id m) = movieId') (movies s1) of
                     None \<Rightarrow> (Inl Internal, s1)
                   | Some movieIndex \<Rightarrow>
                       let s2 = s1\<lparr>movies := (movies s1)
                             [movieIndex := (movies s1 ! movieIndex)
                               \<lparr>averageRating := calculateAverageRating (reviews s1) (m_id movie)\<rparr>]\<rparr>
                       in case find (\<lambda>u. u_id u = authUserId) (users s2) of
                            None \<Rightarrow> (Inl Internal, s2)
                          | Some user \<Rightarrow>
                              (Inr \<lparr>rw_review = newReview, rw_username = username user,
                                    rw_userProfilePicture = Some (profilePicture user)\<rparr>, s2)))"

section \<open>Users and watchlists\<close>

record review_with_movie =
  rm_review :: review
  rm_movieTitle :: string
  rm_moviePoster :: "string option"

record user_profile =
  up_id :: int
  up_username :: string
  up_email :: string
  up_profilePicture :: string
  up_joinDate :: string
  up_reviews :: "review_with_movie list"

text \<open>\<^verbatim>\<open>GET /api/users/:id\<close> (lines 388--419), for a request with a valid token.\<close>

definition getUser :: "state \<Rightarrow> string \<Rightarrow> error + user_profile" where
  "getUser s idParam =
    (let userId' = parseInt idParam in
     case find (\<lambda>u. Some (u_id u) = userId') (users s) of
       None \<Rightarrow> Inl NotFound
     | Some user \<Rightarrow>
         (let userReviews = filter (\<lambda>review. Some (userId review) = userId') (reviews s);
              reviewsWithMovies = map (\<lambda>review.
                (case find (\<lambda>m. m_id m = movieId review) (movies s) of
                   Some movie \<Rightarrow> \<lparr>rm_review = review, rm_movieTitle = title movie,
                                  rm_moviePoster = Some (posterUrl movie)\<rparr>
                 | None \<Rightarrow> \<lparr>rm_review = review, rm_movieTitle = ''Unknown Movie'',
                              rm_moviePoster = None\<rparr>)) userReviews
          in Inr \<lparr>up_id = u_id user, up_username = username user, up_email = email user,
                  up_profilePicture = profilePicture user, up_joinDate = joinDate user,
                  up_reviews = reviewsWithMovies\<rparr>))"

text \<open>\<^verbatim>\<open>GET /api/users/:id/watchlist\<close> (lines 471--492). The movie of an item is
  \<^verbatim>\<open>undefined\<close> (here \<open>None\<close>) when no movie has the item's movie id.\<close>

definition getWatchlist ::
    "int \<Rightarrow> state \<Rightarrow> string \<Rightarrow> error + (watchlist_item \<times> movie option) list" where
  "getWatchlist authUserId s idParam =
    (let userId' = parseInt idParam in
     if Some authUserId \<noteq> userId' then Inl Forbidden
     else
       let userWatchlist = filter (\<lambda>item. Some (w_userId item) = userId') (watchlists s);
           watchlistWithMovies =
             map (\<lambda>item. (item, find (\<lambda>m. m_id m = w_movieId item) (movies s))) userWatchlist
       in Inr watchlistWithMovies)"

text \<open>
  \<^verbatim>\<open>POST /api/users/:id/watchlist\<close> (lines 494--537), for a request with a valid token
  of the account \<open>authUserId\<close>. The body's \<^verbatim>\<open>movieId\<close> is a JSON number. Past the
  authorisation check the number parsed from the path is \<open>authUserId\<close>.
\<close>

definition addToWatchlist ::
    "int \<Rightarrow> string \<Rightarrow> int \<Rightarrow> string \<Rightarrow> state \<Rightarrow> (error + watchlist_item \<times> movie) \<times> state" where
  "addToWatchlist authUserId idParam movieId' now s =
    (if \<not> 1 \<le> movieId' then (Inl ValidationError, s)
     else
       let userId' = parseInt idParam in
       if Some authUserId \<noteq> userId' then (Inl Forbidden, s)
       else
         case find (\<lambda>m. m_id m = movieId') (movies s) of
           None \<Rightarrow> (Inl NotFound, s)
         | Some movie \<Rightarrow>
             (case find (\<lambda>item. Some (w_userId item) = userId' \<and> w_movieId item = movieId')
                     (watchlists s) of
                Some existingItem \<Rightarrow> (Inl Conflict, s)
              | None \<Rightarrow>
                  let newWatchlistItem = \<lparr>w_id = int (length (watchlists s)) + 1,
                        w_userId = authUserId,
                        w_movieId = movieId',
                        dateAdded = now\<rparr>
                  in (Inr (newWatchlistItem, movie),
                      s\<lparr>watchlists := watchlists s @ [newWatchlistItem]\<rparr>)))"

text \<open>\<^verbatim>\<open>DELETE /api/users/:id/watchlist/:movieId\<close> (lines 539--561).\<close>

definition removeFromWatchlist ::
    "int \<Rightarrow> string \<Rightarrow> string \<Rightarrow> state \<Rightarrow> (error + unit) \<times> state" where
  "removeFromWatchlist authUserId idParam movieIdParam s =
    (let userId' = parseInt idParam;
         movieId' = parseInt movieIdParam in
     if Some authUserId \<noteq> userId' then (Inl Forbidden, s)
     else
       case findIndex (\<lambda>item. Some (w_userId item) = userId' \<and> Some (w_movieId item) = movieId')
              (watchlists s) of
         None \<Rightarrow> (Inl NotFound, s)
       | Some itemIndex \<Rightarrow> (Inr (), s\<lparr>watchlists := splice1 itemIndex (watchlists s)\<rparr>))"

section \<open>Routing of GET requests\<close>

text \<open>
  Express tries the routes of a method in the order of their registration and runs the
  first whose pattern matches the path; none of the handlers below passes the request
  on. A pattern is a list of segments, a parameter segment (\<^verbatim>\<open>:id\<close>) matching any
  non-empty path segment.
\<close>

datatype segment = Lit string | Param

datatype handler =
  ListMovies | GetMovie | GetMovieReviews | GetUser | GetWatchlist | GetFeatured

fun match_path :: "segment list \<Rightarrow> string list \<Rightarrow> string list option" where
  "match_path [] [] = Some []"
| "match_path (Lit l # ps) (x # xs) = (if l = x then match_path ps xs else None)"
| "match_path (Param # ps) (x # xs) =
    (if x = [] then None else map_option ((#) x) (match_path ps xs))"
| "match_path _ _ = None"

text \<open>The GET routes in the order of the \<^verbatim>\<open>app.get\<close> calls (lines 190, 244, 310, 388,
  471 and 564).\<close>

definition get_routes :: "(segment list \<times> handler) list" where
  "get_routes =
    [([Lit ''api'', Lit ''movies''], ListMovies),
     ([Lit ''api'', Lit ''movies'', Param], GetMovie),
     ([Lit ''api'', Lit ''movies'', Param, Lit ''reviews''], GetMovieReviews),
     ([Lit ''api'', Lit ''users'', Param], GetUser),
     ([Lit ''api'', Lit ''users'', Param, Lit ''watchlist''], GetWatchlist),
     ([Lit ''api'', Lit ''movies'', Lit ''featured''], GetFeatured)]"

fun dispatch :: "(segment list \<times> handler) list \<Rightarrow> string list \<Rightarrow> (handler \<times> string list) option" where
  "dispatch [] path = None"
| "dispatch ((pattern, h) # routes) path =
    (case match_path pattern path of
       Some params \<Rightarrow> Some (h, params)
     | None \<Rightarrow> dispatch routes path)"

datatype get_response =
  Movies listing
| Movie "error + movie_with_reviews"
| Reviews "error + review_with_user list"
| Profile "error + user_profile"
| Watchlist "error + (watchlist_item \<times> movie option) list"
| Featured "movie list"
| RouteNotFound

text \<open>A GET request with a valid token of \<open>authUserId\<close> (the public routes ignore the
  token), answered by the handler the router picks. A route with a parameter segment
  binds one parameter, so the last equation is never reached from \<open>get_routes\<close>.\<close>

fun run_handler ::
    "(string \<Rightarrow> string \<Rightarrow> rat) \<Rightarrow> int \<Rightarrow> state \<Rightarrow> query \<Rightarrow> handler \<Rightarrow> string list
      \<Rightarrow> get_response" where
  "run_handler localeCompare authUserId s q ListMovies params = Movies (listMovies localeCompare s q)"
| "run_handler localeCompare authUserId s q GetFeatured params = Featured (featured s)"
| "run_handler localeCompare authUserId s q GetMovie (idParam # params) = Movie (getMovie s idParam)"
| "run_handler localeCompare authUserId s q GetMovieReviews (idParam # params) =
    Reviews (getMovieReviews s idParam)"
| "run_handler localeCompare authUserId s q GetUser (idParam # params) = Profile (getUser s idParam)"
| "run_handler localeCompare authUserId s q GetWatchlist (idParam # params) =
    Watchlist (getWatchlist authUserId s idParam)"
| "run_handler localeCompare authUserId s q h [] = RouteNotFound"

definition serve_get ::
    "(string \<Rightarrow> string \<Rightarrow> rat) \<Rightarrow> int \<Rightarrow> state \<Rightarrow> string list \<Rightarrow> query \<Rightarrow> get_response" where
  "serve_get localeCompare authUserId s path q =
    (case dispatch get_routes path of
       None \<Rightarrow> RouteNotFound
     | Some (h, params) \<Rightarrow> run_handler localeCompare authUserId s q h params)"

section \<open>Reachable states\<close>

text \<open>
  The states the store can be in: the seeded state, and every state a handler that
  writes leaves behind, whatever its arguments and whatever it answers. Registration and
  profile update (hashing, token issue, e-mail normalisation) write to \<^verbatim>\<open>users\<close> only;
  they are covered by a step that replaces the user list by any other.
\<close>

inductive reachable :: "state \<Rightarrow> bool" where
  seeded: "reachable initial_state"
| users_written: "reachable s \<Longrightarrow> reachable (s\<lparr>users := us\<rparr>)"
| movie_created: "reachable s \<Longrightarrow> reachable (snd (createMovie maxYear req s))"
| review_added:
    "reachable s \<Longrightarrow> reachable (snd (addReview authUserId idParam rating' reviewText' now s))"
| watchlist_added:
    "reachable s \<Longrightarrow> reachable (snd (addToWatchlist authUserId idParam movieId' now s))"
| watchlist_removed:
    "reachable s \<Longrightarrow> reachable (snd (removeFromWatchlist authUserId idParam movieIdParam s))"

section \<open>Auxiliary notions and example data\<close>

text \<open>A comparator is consistent when "compares at most equal" is a total preorder;
  \<^verbatim>\<open>sort\<close> is specified for consistent comparators only.\<close>

definition consistent_comparator :: "('a \<Rightarrow> 'a \<Rightarrow> rat) \<Rightarrow> bool" where
  "consistent_comparator c \<longleftrightarrow>
    (\<forall>a b. c a b \<le> 0 \<or> c b a \<le> 0) \<and> (\<forall>a b d. c a b \<le> 0 \<longrightarrow> c b d \<le> 0 \<longrightarrow> c a d \<le> 0)"


text \<open>A query with no parameter, and one asking for pages of two.\<close>

definition no_query :: query where
  "no_query = \<lparr>q_page = None, q_limit = None, q_genre = None, q_year = None,
     q_search = None, q_sortBy = None\<rparr>"

definition pages_of_two :: query where
  "pages_of_two = no_query\<lparr>q_limit := Some 2\<rparr>"

text \<open>The review a successful \<^verbatim>\<open>addReview\<close> creates, and the store after it is pushed
  and the average of the movie at index \<open>i\<close> is recomputed.\<close>

definition new_review :: "state \<Rightarrow> movie \<Rightarrow> int \<Rightarrow> int \<Rightarrow> string \<Rightarrow> string \<Rightarrow> review" where
  "new_review s movie a r body now =
    \<lparr>r_id = int (length (reviews s)) + 1, movieId = m_id movie, userId = a, rating = r,
     reviewText = trim body, timestamp = now\<rparr>"

definition with_review :: "state \<Rightarrow> nat \<Rightarrow> review \<Rightarrow> state" where
  "with_review s i nr =
    s\<lparr>reviews := reviews s @ [nr],
      movies := (movies s)[i := (movies s ! i)
        \<lparr>averageRating := calculateAverageRating (reviews s @ [nr]) (movieId nr)\<rparr>]\<rparr>"

text \<open>Invariants of the reachable states: movie and review ids count up from 1; every
  review references a movie of the catalog; every movie's stored average is the
  aggregate of its reviews, unless it is a seeded movie nobody has reviewed; no two
  watchlist items pair the same account and movie.\<close>

definition ids_sequential :: "state \<Rightarrow> bool" where
  "ids_sequential s \<longleftrightarrow>
    map m_id (movies s) = [1..int (length (movies s))] \<and>
    map r_id (reviews s) = [1..int (length (reviews s))]"

definition reviews_reference_movies :: "state \<Rightarrow> bool" where
  "reviews_reference_movies s \<longleftrightarrow> (\<forall>r\<in>set (reviews s). movieId r \<in> m_id ` set (movies s))"

definition ratings_aggregated :: "state \<Rightarrow> bool" where
  "ratings_aggregated s \<longleftrightarrow>
    (\<forall>m\<in>set (movies s).
      averageRating m = calculateAverageRating (reviews s) (m_id m) \<or>
      (m \<in> set seed_movies \<and> filter (\<lambda>review. movieId review = m_id m) (reviews s) = []))"

definition watchlist_pairs_distinct :: "state \<Rightarrow> bool" where
  "watchlist_pairs_distinct s \<longleftrightarrow>
    distinct (map (\<lambda>item. (w_userId item, w_movieId item)) (watchlists s))"

text \<open>Example stores: the seeded store with one account; the stores after account 1 puts
  movies 1 and 2 on the watchlist, removes movie 1 and adds movie 3.\<close>

definition alice :: user where
  "alice = \<lparr>u_id = 1, username = ''alice'', email = ''alice@example.com'', password = ''hash'',
     profilePicture = ''https://ui-avatars.com/api/?name=alice&background=random'',
     joinDate = ''2024-01-01T00:00:00.000Z''\<rparr>"

definition alice_state :: state where
  "alice_state = initial_state\<lparr>users := [alice]\<rparr>"

definition watch1 :: state where
  "watch1 = snd (addToWatchlist 1 ''1'' 1 ''day1'' alice_state)"

definition watch2 :: state where
  "watch2 = snd (addToWatchlist 1 ''1'' 2 ''day2'' watch1)"

definition watch3 :: state where
  "watch3 = snd (removeFromWatchlist 1 ''1'' ''1'' watch2)"

definition watch4 :: state where
  "watch4 = snd (addToWatchlist 1 ''1'' 3 ''day4'' watch3)"

text \<open>The review account 1 writes on movie 2 in the store with one account, and the
  store after it.\<close>

definition great_review :: review where
  "great_review = new_review alice_state (seed_movies ! 1) 1 5 ''great'' ''day1''"

definition reviewed_state :: state where
  "reviewed_state = snd (addReview 1 ''2'' 5 ''great'' ''day1'' alice_state)"

section \<open>The average is the rounded mean\<close>



text \<open>The specification's rounding determines its result, so the characterisation
  below leaves the code no freedom.\<close>

lemma rounded_half_up_1dp_unique:
  assumes "rounded_half_up_1dp x y" and "rounded_half_up_1dp x z"
  shows "y = z"
proof -
  from assms obtain a b :: int where a: "y * 10 = of_int a" and b: "z * 10 = of_int b"
    unfolding rounded_half_up_1dp_def frac_eq_0_iff Ints_def by auto
  have "y * 10 - z * 10 < 1" "z * 10 - y * 10 < 1"
    using assms unfolding rounded_half_up_1dp_def by linarith+
  then have "(of_int (a - b) :: rat) < 1" "(of_int (b - a) :: rat) < 1"
    unfolding a b by simp_all
  then have "a - b < 1" "b - a < 1" by linarith+
  then have "a = b" by linarith
  with a b have "y * 10 = z * 10" by simp
  then show ?thesis by simp
qed

lemma calculateAverageRating_empty:
  "filter (\<lambda>review. movieId review = mid) rs = [] \<Longrightarrow> calculateAverageRating rs mid = 0"
  by (simp add: calculateAverageRating_def)




section \<open>Sorting and slicing\<close>

lemma length_insert_by: "length (insert_by c x xs) = Suc (length xs)"
  by (induction xs) simp_all

lemma set_insert_by: "set (insert_by c x xs) = insert x (set xs)"
  by (induction xs) auto

lemma length_array_sort: "length (array_sort c xs) = length xs"
  unfolding array_sort_def by (induction xs) (simp_all add: length_insert_by)

lemma sorted_insert_by:
  assumes tot: "\<And>a b. c a b \<le> 0 \<or> c b a \<le> 0"
    and trans: "\<And>a b d. c a b \<le> 0 \<Longrightarrow> c b d \<le> 0 \<Longrightarrow> c a d \<le> 0"
    and sorted: "sorted_wrt (\<lambda>a b. c a b \<le> 0) xs"
  shows "sorted_wrt (\<lambda>a b. c a b \<le> 0) (insert_by c x xs)"
  using sorted
proof (induction xs)
  case Nil
  show ?case by simp
next
  case (Cons y ys)
  show ?case
  proof (cases "c x y \<le> 0")
    case True
    have "\<forall>z\<in>set ys. c x z \<le> 0"
      using Cons.prems True trans by auto
    with True Cons.prems show ?thesis by simp
  next
    case False
    then have "c y x \<le> 0" using tot [of x y] by simp
    with False Cons show ?thesis by (simp add: set_insert_by)
  qed
qed

lemma sorted_array_sort:
  assumes tot: "\<And>a b. c a b \<le> 0 \<or> c b a \<le> 0"
    and trans: "\<And>a b d. c a b \<le> 0 \<Longrightarrow> c b d \<le> 0 \<Longrightarrow> c a d \<le> 0"
  shows "sorted_wrt (\<lambda>a b. c a b \<le> 0) (array_sort c xs)"
  unfolding array_sort_def
  by (induction xs) (simp_all add: sorted_insert_by [OF tot trans])

lemma slice_window:
  assumes "0 \<le> start" and "0 \<le> n"
  shows "slice xs start (start + n) = take (nat n) (drop (nat start) xs)"
proof (cases "start \<le> int (length xs)")
  case True
  let ?ys = "drop (nat start) xs"
  have len: "int (length ?ys) = int (length xs) - start" using True assms by simp
  have "slice xs start (start + n) = take (nat (min (start + n) (int (length xs)) - start)) ?ys"
    using True assms by (simp add: slice_def Let_def min_def)
  also have "nat (min (start + n) (int (length xs)) - start) = min (nat n) (length ?ys)"
    using len assms by (simp add: min_def) linarith
  also have "take (min (nat n) (length ?ys)) ?ys = take (nat n) ?ys"
    by (simp add: min_def)
  finally show ?thesis .
next
  case False
  then show ?thesis using assms by (simp add: slice_def Let_def min_def)
qed

lemma slice_sorted_wrt: "sorted_wrt R xs \<Longrightarrow> sorted_wrt R (slice xs a b)"
  unfolding slice_def Let_def by (intro sorted_wrt_take sorted_wrt_drop)


lemma ceiling_div_covers:
  assumes "0 < limit"
  shows "int n \<le> \<lceil>(of_int (int n) :: rat) / of_int limit\<rceil> * limit"
proof -
  let ?c = "\<lceil>(of_int (int n) :: rat) / of_int limit\<rceil>"
  have pos: "0 < (of_int limit :: rat)" using assms by simp
  have "(of_int (int n) :: rat) / of_int limit \<le> of_int ?c"
    by (rule le_of_int_ceiling)
  then have "(of_int (int n) :: rat) \<le> of_int ?c * of_int limit"
    using pos by (simp only: pos_divide_le_eq)
  also have "\<dots> = of_int (?c * limit)" by simp
  finally show ?thesis by (simp only: of_int_le_iff)
qed

lemma ceiling_div_nonneg:
  assumes "0 < limit"
  shows "0 \<le> \<lceil>(of_int (int n) :: rat) / of_int limit\<rceil>"
proof -
  have "0 \<le> (of_int (int n) :: rat) / of_int limit"
    using assms by (intro divide_nonneg_pos) simp_all
  then show ?thesis by (simp only: zero_le_ceiling)
qed


lemma filterMovies_page [simp]: "filterMovies (q\<lparr>q_page := p\<rparr>) ms = filterMovies q ms"
  by (simp add: filterMovies_def)

lemma filterMovies_sortBy [simp]: "filterMovies (q\<lparr>q_sortBy := p\<rparr>) ms = filterMovies q ms"
  by (simp add: filterMovies_def)

lemma params_page [simp]:
  "pageParam (q\<lparr>q_page := Some p\<rparr>) = p"
  "limitParam (q\<lparr>q_page := x\<rparr>) = limitParam q"
  "sortByParam (q\<lparr>q_page := x\<rparr>) = sortByParam q"
  by (simp_all add: pageParam_def limitParam_def sortByParam_def)

lemma params_sortBy [simp]:
  "sortByParam (q\<lparr>q_sortBy := Some sb\<rparr>) = sb"
  "limitParam (q\<lparr>q_sortBy := y\<rparr>) = limitParam q"
  "pageParam (q\<lparr>q_sortBy := y\<rparr>) = pageParam q"
  by (simp_all add: pageParam_def limitParam_def sortByParam_def)

lemma listMovies_page:
  "l_movies (listMovies lc s q) =
    slice (array_sort (compareMovies lc (sortByParam q)) (filterMovies q (movies s)))
      ((pageParam q - 1) * limitParam q) ((pageParam q - 1) * limitParam q + limitParam q)"
  by (simp add: listMovies_def Let_def)

lemma listMovies_totalCount:
  "totalCount (listMovies lc s q) = int (length (filterMovies q (movies s)))"
  by (simp add: listMovies_def Let_def length_array_sort)

lemma listMovies_totalPages:
  "totalPages (listMovies lc s q) = ceilDiv (length (filterMovies q (movies s))) (limitParam q)"
  by (simp add: listMovies_def Let_def length_array_sort)

lemma listMovies_window:
  assumes "1 \<le> pageParam q" and "0 < limitParam q"
  shows "l_movies (listMovies lc s q) =
    take (nat (limitParam q)) (drop (nat ((pageParam q - 1) * limitParam q))
      (array_sort (compareMovies lc (sortByParam q)) (filterMovies q (movies s))))"
  unfolding listMovies_page using assms by (intro slice_window) simp_all



text \<open>
  Claim C8. With a positive limit, a request for a page beyond \<^verbatim>\<open>totalPages\<close> is
  answered with an empty page, not with an error, and with the \<^verbatim>\<open>totalCount\<close> and
  \<^verbatim>\<open>totalPages\<close> of every other page requested with the same filters and limit.
\<close>

theorem listMovies_beyond_last_page:
  assumes "0 < limitParam q"
    and "totalPages (listMovies lc s q) = Some tp"
    and "tp < pageParam q"
  shows "l_movies (listMovies lc s q) = []
    \<and> totalCount (listMovies lc s q) = totalCount (listMovies lc s (q\<lparr>q_page := p'\<rparr>))
    \<and> totalPages (listMovies lc s q) = totalPages (listMovies lc s (q\<lparr>q_page := p'\<rparr>))"
proof -
  let ?n = "length (filterMovies q (movies s))"
  have tp: "tp = \<lceil>(of_int (int ?n) :: rat) / of_int (limitParam q)\<rceil>"
    using assms(1,2) by (simp add: listMovies_totalPages ceilDiv_def)
  have "0 \<le> tp" unfolding tp by (rule ceiling_div_nonneg [OF assms(1)])
  then have page: "1 \<le> pageParam q" using assms(3) by simp
  have "int ?n \<le> tp * limitParam q" unfolding tp by (rule ceiling_div_covers [OF assms(1)])
  also have "\<dots> \<le> (pageParam q - 1) * limitParam q"
    using assms(1,3) by (intro mult_right_mono) simp_all
  finally have "?n \<le> nat ((pageParam q - 1) * limitParam q)" by simp
  then have "l_movies (listMovies lc s q) = []"
    by (simp add: listMovies_window [OF page assms(1)] length_array_sort)
  then show ?thesis
    by (simp add: listMovies_totalCount listMovies_totalPages)
qed


lemma filterMovies_no_filter:
  "q_genre q = None \<Longrightarrow> q_year q = None \<Longrightarrow> q_search q = None \<Longrightarrow> filterMovies q ms = ms"
  by (simp add: filterMovies_def)


theorem listMovies_beyond_last_page_witness:
  "l_movies (listMovies byteCompare initial_state (pages_of_two\<lparr>q_page := Some 7\<rparr>)) = []
    \<and> totalCount (listMovies byteCompare initial_state (pages_of_two\<lparr>q_page := Some 7\<rparr>))
      = totalCount (listMovies byteCompare initial_state (pages_of_two\<lparr>q_page := Some 1\<rparr>))
    \<and> totalPages (listMovies byteCompare initial_state (pages_of_two\<lparr>q_page := Some 7\<rparr>))
      = totalPages (listMovies byteCompare initial_state (pages_of_two\<lparr>q_page := Some 1\<rparr>))"
proof -
  let ?q = "pages_of_two\<lparr>q_page := Some 7\<rparr>"
  have limit: "0 < limitParam ?q"
    by (simp add: limitParam_def pages_of_two_def no_query_def)
  have filtered: "filterMovies ?q (movies initial_state) = seed_movies"
    by (simp add: filterMovies_no_filter pages_of_two_def no_query_def initial_state_def)
  have ceil: "\<lceil>(3::rat) / 2\<rceil> = 2" by (rule ceiling_unique) simp_all
  have len: "length seed_movies = 3" by (simp add: seed_movies_def)
  have pages: "totalPages (listMovies byteCompare initial_state ?q) = Some 2"
    unfolding listMovies_totalPages filtered len
    by (simp add: ceilDiv_def limitParam_def pages_of_two_def no_query_def ceil)
  have beyond: "2 < pageParam ?q"
    by (simp add: pageParam_def)
  show ?thesis
    using listMovies_beyond_last_page [OF limit pages beyond, of "Some 1"] by simp
qed

section \<open>Sort orders\<close>

lemma sorted_by_rating:
  "sorted_wrt (\<lambda>a b. averageRating b \<le> averageRating a)
    (array_sort (\<lambda>a b. averageRating b - averageRating a) ms)"
proof -
  have "sorted_wrt (\<lambda>a b. averageRating b - averageRating a \<le> 0)
      (array_sort (\<lambda>a b. averageRating b - averageRating a) ms)"
    by (rule sorted_array_sort) auto
  then show ?thesis by simp
qed

lemma sorted_by_year:
  "sorted_wrt (\<lambda>a b. releaseYear b \<le> releaseYear a)
    (array_sort (\<lambda>a b. of_int (releaseYear b - releaseYear a)) ms)"
proof -
  have "sorted_wrt (\<lambda>a b. (of_int (releaseYear b - releaseYear a) :: rat) \<le> 0)
      (array_sort (\<lambda>a b. of_int (releaseYear b - releaseYear a)) ms)"
    by (rule sorted_array_sort) auto
  then show ?thesis by simp
qed

lemma sorted_by_title:
  assumes "consistent_comparator lc"
  shows "sorted_wrt (\<lambda>a b. lc (title a) (title b) \<le> 0)
    (array_sort (\<lambda>a b. lc (title a) (title b)) ms)"
proof (rule sorted_array_sort)
  show "lc (title a) (title b) \<le> 0 \<or> lc (title b) (title a) \<le> 0" for a b
    using assms unfolding consistent_comparator_def by blast
  show "lc (title a) (title b) \<le> 0 \<Longrightarrow> lc (title b) (title d) \<le> 0 \<Longrightarrow> lc (title a) (title d) \<le> 0"
    for a b d
    using assms unfolding consistent_comparator_def by blast
qed

lemma compareMovies_rating: "compareMovies lc ''rating'' = (\<lambda>a b. averageRating b - averageRating a)"
  by (intro ext) (simp add: compareMovies_def)

lemma compareMovies_year: "compareMovies lc ''year'' = (\<lambda>a b. of_int (releaseYear b - releaseYear a))"
  by (intro ext) (simp add: compareMovies_def)

lemma compareMovies_default:
  "sb \<noteq> ''year'' \<Longrightarrow> sb \<noteq> ''rating'' \<Longrightarrow> compareMovies lc sb = (\<lambda>a b. lc (title a) (title b))"
  by (intro ext) (simp add: compareMovies_def)

lemma consistent_byteCompare: "consistent_comparator byteCompare"
  unfolding consistent_comparator_def byteCompare_def by (auto split: if_splits)

text \<open>
  Claim C4. The filtered list after sorting, and with it the page returned, is
  non-increasing in \<^verbatim>\<open>averageRating\<close> for \<^verbatim>\<open>sortBy=rating\<close>, non-increasing in
  \<^verbatim>\<open>releaseYear\<close> for \<^verbatim>\<open>sortBy=year\<close>, and non-decreasing in the order of
  \<^verbatim>\<open>localeCompare\<close> on the titles for \<^verbatim>\<open>sortBy=title\<close>; any other value of
  \<^verbatim>\<open>sortBy\<close> gives the answer of \<^verbatim>\<open>sortBy=title\<close>. \<^verbatim>\<open>localeCompare\<close> is assumed
  to be a consistent comparator.
\<close>

theorem listMovies_sort_orders:
  assumes "consistent_comparator lc" and "sb \<noteq> ''year''" and "sb \<noteq> ''rating''"
  shows "sorted_wrt (\<lambda>a b. averageRating b \<le> averageRating a)
      (array_sort (compareMovies lc ''rating'') (filterMovies q (movies s)))
    \<and> sorted_wrt (\<lambda>a b. averageRating b \<le> averageRating a)
      (l_movies (listMovies lc s (q\<lparr>q_sortBy := Some ''rating''\<rparr>)))
    \<and> sorted_wrt (\<lambda>a b. releaseYear b \<le> releaseYear a)
      (array_sort (compareMovies lc ''year'') (filterMovies q (movies s)))
    \<and> sorted_wrt (\<lambda>a b. releaseYear b \<le> releaseYear a)
      (l_movies (listMovies lc s (q\<lparr>q_sortBy := Some ''year''\<rparr>)))
    \<and> sorted_wrt (\<lambda>a b. lc (title a) (title b) \<le> 0)
      (array_sort (compareMovies lc ''title'') (filterMovies q (movies s)))
    \<and> sorted_wrt (\<lambda>a b. lc (title a) (title b) \<le> 0)
      (l_movies (listMovies lc s (q\<lparr>q_sortBy := Some ''title''\<rparr>)))
    \<and> listMovies lc s (q\<lparr>q_sortBy := Some sb\<rparr>) = listMovies lc s (q\<lparr>q_sortBy := Some ''title''\<rparr>)"
proof -
  have title: "compareMovies lc ''title'' = (\<lambda>a b. lc (title a) (title b))"
    by (rule compareMovies_default) simp_all
  have other: "compareMovies lc sb = compareMovies lc ''title''"
    unfolding title using assms(2,3) by (rule compareMovies_default)
  have "listMovies lc s (q\<lparr>q_sortBy := Some sb\<rparr>) = listMovies lc s (q\<lparr>q_sortBy := Some ''title''\<rparr>)"
    by (simp add: listMovies_def Let_def other)
  then show ?thesis
    by (simp add: listMovies_page compareMovies_rating compareMovies_year title
        sorted_by_rating sorted_by_year sorted_by_title [OF assms(1)] slice_sorted_wrt
        del: of_int_diff)
qed

theorem listMovies_sort_orders_witness:
  "sorted_wrt (\<lambda>a b. averageRating b \<le> averageRating a)
      (l_movies (listMovies byteCompare initial_state (no_query\<lparr>q_sortBy := Some ''rating''\<rparr>)))
    \<and> sorted_wrt (\<lambda>a b. releaseYear b \<le> releaseYear a)
      (l_movies (listMovies byteCompare initial_state (no_query\<lparr>q_sortBy := Some ''year''\<rparr>)))
    \<and> sorted_wrt (\<lambda>a b. byteCompare (title a) (title b) \<le> 0)
      (l_movies (listMovies byteCompare initial_state (no_query\<lparr>q_sortBy := Some ''title''\<rparr>)))
    \<and> listMovies byteCompare initial_state (no_query\<lparr>q_sortBy := Some ''popularity''\<rparr>)
      = listMovies byteCompare initial_state (no_query\<lparr>q_sortBy := Some ''title''\<rparr>)"
proof -
  have "''popularity'' \<noteq> ''year''" and "''popularity'' \<noteq> ''rating''" by simp_all
  from listMovies_sort_orders [OF consistent_byteCompare this, of no_query initial_state]
  show ?thesis by blast
qed

section \<open>The featured handler and its route\<close>

lemma filter_insert_by:
  assumes "\<And>y. P x \<Longrightarrow> P y \<Longrightarrow> c x y \<le> 0"
  shows "filter P (insert_by c x xs) = (if P x then x # filter P xs else filter P xs)"
  using assms by (induction xs) auto

lemma array_sort_stable:
  assumes "\<And>x y. P x \<Longrightarrow> P y \<Longrightarrow> c x y \<le> 0"
  shows "filter P (array_sort c xs) = filter P xs"
  unfolding array_sort_def
  by (induction xs) (simp_all add: filter_insert_by assms)

text \<open>The handler itself does what the specification says of the featured query: at most
  six movies, non-increasing in rating, movies of equal rating in the order of the
  catalog.\<close>

lemma featured_handler:
  "length (featured s) \<le> 6"
  "sorted_wrt (\<lambda>a b. averageRating b \<le> averageRating a) (featured s)"
  "featured s = take 6 (array_sort (\<lambda>a b. averageRating b - averageRating a) (movies s))"
  "filter (\<lambda>m. averageRating m = r) (array_sort (\<lambda>a b. averageRating b - averageRating a) (movies s))
    = filter (\<lambda>m. averageRating m = r) (movies s)"
proof -
  show take: "featured s = take 6 (array_sort (\<lambda>a b. averageRating b - averageRating a) (movies s))"
    unfolding featured_def using slice_window [of 0 6] by simp
  show "length (featured s) \<le> 6" unfolding take by simp
  show "sorted_wrt (\<lambda>a b. averageRating b \<le> averageRating a) (featured s)"
    unfolding featured_def by (intro slice_sorted_wrt sorted_by_rating)
  show "filter (\<lambda>m. averageRating m = r) (array_sort (\<lambda>a b. averageRating b - averageRating a) (movies s))
    = filter (\<lambda>m. averageRating m = r) (movies s)"
    by (rule array_sort_stable) simp
qed

lemma parseInt_featured: "parseInt ''featured'' = None"
  by (simp add: parseInt_def isWhiteSpace_def isDigit_def Let_def)

lemma dispatch_featured:
  "dispatch get_routes [''api'', ''movies'', ''featured''] = Some (GetMovie, [''featured''])"
  by (simp add: get_routes_def)

text \<open>
  Claim C7. The featured query, \<^verbatim>\<open>GET /api/movies/featured\<close>, should return at most six
  movies, those of highest rating. In the server the request never reaches the featured
  handler: the route \<^verbatim>\<open>/api/movies/:id\<close> is registered before it and matches the path
  with \<^verbatim>\<open>id = featured\<close>, \<^verbatim>\<open>parseInt\<close> gives \<^verbatim>\<open>NaN\<close>, no movie has that id, and
  the answer is 404 \<^verbatim>\<open>Movie not found\<close>, in every state of the store.
\<close>

theorem featured_route_shadowed:
  "serve_get lc authUserId s [''api'', ''movies'', ''featured''] q = Movie (Inl NotFound)"
proof -
  have "find (\<lambda>m. Some (m_id m) = parseInt ''featured'') (movies s) = None"
    by (simp add: find_None_iff parseInt_featured)
  then have "getMovie s ''featured'' = Inl NotFound"
    by (simp add: getMovie_def)
  then show ?thesis
    by (simp add: serve_get_def dispatch_featured)
qed

section \<open>Effects of the handlers on the store\<close>

lemma findIndex_SomeD:
  "findIndex P xs = Some i \<Longrightarrow> i < length xs \<and> P (xs ! i)"
proof (induction xs arbitrary: i)
  case Nil
  then show ?case by simp
next
  case (Cons x xs)
  then show ?case by (cases "P x") auto
qed

lemma findIndex_None_iff: "findIndex P xs = None \<longleftrightarrow> (\<forall>x\<in>set xs. \<not> P x)"
  by (induction xs) auto

lemma find_Some_findIndex:
  "find P xs = Some x \<Longrightarrow> \<exists>i. findIndex P xs = Some i \<and> xs ! i = x"
  by (induction xs) (auto split: if_splits)


lemma addReview_cases:
  "(\<exists>e. addReview a idp r body now s = (Inl e, s) \<and> e \<in> {ValidationError, NotFound, Conflict})
   \<or> (\<exists>movie i res. 1 \<le> r \<and> r \<le> 5 \<and> body \<noteq> []
        \<and> find (\<lambda>m. Some (m_id m) = parseInt idp) (movies s) = Some movie
        \<and> find (\<lambda>review. Some (movieId review) = parseInt idp \<and> userId review = a) (reviews s) = None
        \<and> findIndex (\<lambda>m. Some (m_id m) = parseInt idp) (movies s) = Some i
        \<and> movies s ! i = movie
        \<and> res = (case find (\<lambda>u. u_id u = a) (users s) of
             None \<Rightarrow> Inl Internal
           | Some user \<Rightarrow> Inr \<lparr>rw_review = new_review s movie a r body now,
               rw_username = username user, rw_userProfilePicture = Some (profilePicture user)\<rparr>)
        \<and> addReview a idp r body now s = (res, with_review s i (new_review s movie a r body now)))"
proof (cases "\<not> (1 \<le> r \<and> r \<le> 5) \<or> body = []")
  case True
  then show ?thesis by (auto simp: addReview_def)
next
  case valid: False
  show ?thesis
  proof (cases "find (\<lambda>m. Some (m_id m) = parseInt idp) (movies s)")
    case None
    with valid show ?thesis by (simp add: addReview_def)
  next
    case (Some movie)
    show ?thesis
    proof (cases "find (\<lambda>review. Some (movieId review) = parseInt idp \<and> userId review = a) (reviews s)")
      case existing: (Some rv)
      with valid Some show ?thesis by (simp add: addReview_def)
    next
      case None
      from find_Some_findIndex [OF Some] obtain i
        where i: "findIndex (\<lambda>m. Some (m_id m) = parseInt idp) (movies s) = Some i"
          and nth: "movies s ! i = movie" by blast
      have "addReview a idp r body now s =
          ((case find (\<lambda>u. u_id u = a) (users s) of
             None \<Rightarrow> Inl Internal
           | Some user \<Rightarrow> Inr \<lparr>rw_review = new_review s movie a r body now,
               rw_username = username user, rw_userProfilePicture = Some (profilePicture user)\<rparr>),
           with_review s i (new_review s movie a r body now))"
        using valid Some None i nth
        by (simp add: addReview_def Let_def new_review_def with_review_def split: option.split)
      with valid Some None i nth show ?thesis by blast
    qed
  qed
qed

lemma createMovie_cases:
  "createMovie maxYear req s = (Inl ValidationError, s)
   \<or> (\<exists>m. m_id m = int (length (movies s)) + 1 \<and> averageRating m = 0
        \<and> createMovie maxYear req s = (Inr m, s\<lparr>movies := movies s @ [m]\<rparr>))"
  by (simp add: createMovie_def Let_def)

lemma addToWatchlist_cases:
  "(\<exists>e. addToWatchlist a idp m now s = (Inl e, s))
   \<or> (\<exists>movie. 1 \<le> m \<and> Some a = parseInt idp
        \<and> find (\<lambda>mv. m_id mv = m) (movies s) = Some movie
        \<and> find (\<lambda>item. Some (w_userId item) = parseInt idp \<and> w_movieId item = m) (watchlists s) = None
        \<and> addToWatchlist a idp m now s =
            (Inr (\<lparr>w_id = int (length (watchlists s)) + 1, w_userId = a, w_movieId = m,
                   dateAdded = now\<rparr>, movie),
             s\<lparr>watchlists := watchlists s @
               [\<lparr>w_id = int (length (watchlists s)) + 1, w_userId = a, w_movieId = m,
                 dateAdded = now\<rparr>]\<rparr>))"
  by (auto simp: addToWatchlist_def Let_def split: option.split)

lemma removeFromWatchlist_cases:
  "(\<exists>e. removeFromWatchlist a idp midp s = (Inl e, s))
   \<or> (\<exists>i. Some a = parseInt idp
        \<and> findIndex (\<lambda>item. Some (w_userId item) = parseInt idp \<and> Some (w_movieId item) = parseInt midp)
            (watchlists s) = Some i
        \<and> removeFromWatchlist a idp midp s = (Inr (), s\<lparr>watchlists := splice1 i (watchlists s)\<rparr>))"
  by (auto simp: removeFromWatchlist_def Let_def split: option.split)

section \<open>Invariants of the reachable states\<close>

lemma calculateAverageRating_append_other:
  "movieId nr \<noteq> k \<Longrightarrow> calculateAverageRating (rs @ [nr]) k = calculateAverageRating rs k"
  by (simp add: calculateAverageRating_def)

lemma upto_Suc_length:
  "[1..1 + int n] = [1..int n] @ [int n + 1]"
  "[1..int n + 1] = [1..int n] @ [int n + 1]"
  by (simp_all add: upto_rec2)

lemma map_m_id_update:
  "map m_id (ms[i := (ms ! i)\<lparr>averageRating := v\<rparr>]) = map m_id ms"
  by (simp add: map_update list_update_same_conv) (metis list_update_id map_update)

lemma with_review_simps:
  "movies (with_review s i nr) =
    (movies s)[i := (movies s ! i)\<lparr>averageRating := calculateAverageRating (reviews s @ [nr]) (movieId nr)\<rparr>]"
  "reviews (with_review s i nr) = reviews s @ [nr]"
  "users (with_review s i nr) = users s"
  "watchlists (with_review s i nr) = watchlists s"
  by (simp_all add: with_review_def)

lemma new_review_simps:
  "movieId (new_review s movie a r body now) = m_id movie"
  "userId (new_review s movie a r body now) = a"
  "r_id (new_review s movie a r body now) = int (length (reviews s)) + 1"
  by (simp_all add: new_review_def)

lemma ids_sequential_initial: "ids_sequential initial_state"
  by (simp add: ids_sequential_def initial_state_def seed_movies_def upto.simps)

lemma ids_sequential_with_review:
  assumes "ids_sequential s"
  shows "ids_sequential (with_review s i (new_review s movie a r body now))"
  using assms
  by (simp add: ids_sequential_def with_review_simps new_review_simps map_m_id_update
      upto_Suc_length)

lemma ids_sequential_movie_added:
  assumes "ids_sequential s" and "m_id m = int (length (movies s)) + 1"
  shows "ids_sequential (s\<lparr>movies := movies s @ [m]\<rparr>)"
  using assms by (simp add: ids_sequential_def upto_Suc_length)

lemma ids_distinct:
  assumes "ids_sequential s"
  shows "distinct (map m_id (movies s))"
  using assms by (simp add: ids_sequential_def)

lemma ids_bounded:
  assumes "ids_sequential s" and "m \<in> set (movies s)"
  shows "m_id m \<le> int (length (movies s))"
proof -
  have "m_id m \<in> set (map m_id (movies s))" using assms(2) by simp
  then have "m_id m \<in> set [1..int (length (movies s))]"
    using assms(1) by (simp only: ids_sequential_def)
  then show ?thesis by simp
qed

lemma set_m_id_with_review:
  "m_id ` set (movies (with_review s i nr)) = m_id ` set (movies s)"
proof -
  have "set (map m_id (movies (with_review s i nr))) = set (map m_id (movies s))"
    by (simp only: with_review_simps map_m_id_update)
  then show ?thesis by simp
qed

lemma reviews_reference_with_review:
  assumes "reviews_reference_movies s" and "i < length (movies s)"
  shows "reviews_reference_movies (with_review s i (new_review s (movies s ! i) a r body now))"
proof -
  have "m_id (movies s ! i) \<in> m_id ` set (movies s)"
    using assms(2) by simp
  then show ?thesis
    using assms(1) unfolding reviews_reference_movies_def set_m_id_with_review
    by (simp add: with_review_simps new_review_simps)
qed

lemma ratings_aggregated_with_review:
  assumes inv: "ratings_aggregated s" and ids: "ids_sequential s" and i: "i < length (movies s)"
  shows "ratings_aggregated (with_review s i (new_review s (movies s ! i) a r body now))"
  unfolding ratings_aggregated_def
proof
  let ?nr = "new_review s (movies s ! i) a r body now"
  let ?s' = "with_review s i ?nr"
  let ?k = "m_id (movies s ! i)"
  fix m
  assume "m \<in> set (movies ?s')"
  then obtain j where j: "j < length (movies s)" and m: "m = movies ?s' ! j"
    by (auto simp: in_set_conv_nth with_review_simps)
  show "averageRating m = calculateAverageRating (reviews ?s') (m_id m) \<or>
    (m \<in> set seed_movies \<and> filter (\<lambda>review. movieId review = m_id m) (reviews ?s') = [])"
  proof (cases "j = i")
    case True
    then have "averageRating m = calculateAverageRating (reviews ?s') (m_id m)"
      using i m by (simp add: with_review_simps new_review_simps)
    then show ?thesis ..
  next
    case False
    then have old: "m = movies s ! j" using m by (simp add: with_review_simps)
    then have mem: "m \<in> set (movies s)" using j by simp
    have "(map m_id (movies s) ! j = map m_id (movies s) ! i) = (j = i)"
      by (rule nth_eq_iff_index_eq) (use ids_distinct [OF ids] i j in simp_all)
    then have other: "movieId ?nr \<noteq> m_id m"
      using False i j old by (simp add: new_review_simps)
    from inv mem have "averageRating m = calculateAverageRating (reviews s) (m_id m) \<or>
        (m \<in> set seed_movies \<and> filter (\<lambda>review. movieId review = m_id m) (reviews s) = [])"
      unfolding ratings_aggregated_def by blast
    then show ?thesis
      using other by (simp add: with_review_simps calculateAverageRating_append_other)
  qed
qed

lemma ratings_aggregated_movie_added:
  assumes inv: "ratings_aggregated s" and ids: "ids_sequential s"
    and refs: "reviews_reference_movies s"
    and m: "m_id m = int (length (movies s)) + 1" "averageRating m = 0"
  shows "ratings_aggregated (s\<lparr>movies := movies s @ [m]\<rparr>)"
proof -
  have "movieId review \<noteq> m_id m" if "review \<in> set (reviews s)" for review
  proof -
    from refs that obtain m' where "m' \<in> set (movies s)" and "movieId review = m_id m'"
      unfolding reviews_reference_movies_def by blast
    with ids_bounded [OF ids] m(1) show ?thesis by fastforce
  qed
  then have "filter (\<lambda>review. movieId review = m_id m) (reviews s) = []"
    by (simp add: filter_empty_conv)
  then have "averageRating m = calculateAverageRating (reviews s) (m_id m)"
    using m(2) by (simp add: calculateAverageRating_empty)
  then show ?thesis
    using inv by (auto simp: ratings_aggregated_def)
qed

lemma ratings_aggregated_initial: "ratings_aggregated initial_state"
  by (simp add: ratings_aggregated_def initial_state_def)

lemma reviews_reference_initial: "reviews_reference_movies initial_state"
  by (simp add: reviews_reference_movies_def initial_state_def)

lemma watchlist_pairs_distinct_initial: "watchlist_pairs_distinct initial_state"
  by (simp add: watchlist_pairs_distinct_def initial_state_def)

lemma distinct_splice1: "distinct ys \<Longrightarrow> distinct (splice1 i ys)"
proof (induction ys arbitrary: i)
  case Nil
  show ?case by (simp add: splice1_def)
next
  case (Cons y ys)
  show ?case
  proof (cases i)
    case 0
    with Cons.prems show ?thesis by (simp add: splice1_def)
  next
    case (Suc k)
    have "distinct (splice1 k ys)" using Cons by simp
    moreover have "y \<notin> set (splice1 k ys)"
      using Cons.prems by (auto simp: splice1_def dest: in_set_takeD in_set_dropD)
    ultimately show ?thesis using Suc by (simp add: splice1_def)
  qed
qed

lemma map_splice1: "map f (splice1 i xs) = splice1 i (map f xs)"
  by (simp add: splice1_def take_map drop_map)

lemma splice1_nth_notin:
  assumes "distinct ys" and "i < length ys"
  shows "ys ! i \<notin> set (splice1 i ys)"
proof -
  have "ys = take i ys @ ys ! i # drop (Suc i) ys"
    using assms(2) by (rule id_take_nth_drop)
  then have "distinct (take i ys @ ys ! i # drop (Suc i) ys)"
    using assms(1) by simp
  then show ?thesis by (auto simp: splice1_def)
qed

lemma catalog_invariants_frame:
  assumes "movies s' = movies s" and "reviews s' = reviews s"
  shows "ids_sequential s' = ids_sequential s"
    and "reviews_reference_movies s' = reviews_reference_movies s"
    and "ratings_aggregated s' = ratings_aggregated s"
  using assms
  by (simp_all add: ids_sequential_def reviews_reference_movies_def ratings_aggregated_def)

lemma reachable_catalog:
  "reachable s \<Longrightarrow> ids_sequential s \<and> reviews_reference_movies s \<and> ratings_aggregated s"
proof (induction rule: reachable.induct)
  case seeded
  show ?case
    by (simp add: ids_sequential_initial reviews_reference_initial ratings_aggregated_initial)
next
  case (users_written s us)
  then show ?case by (simp add: catalog_invariants_frame [of "s\<lparr>users := us\<rparr>" s])
next
  case (movie_created s maxYear req)
  from createMovie_cases [of maxYear req s] show ?case
  proof
    assume "createMovie maxYear req s = (Inl ValidationError, s)"
    with movie_created.IH show ?thesis by simp
  next
    assume "\<exists>m. m_id m = int (length (movies s)) + 1 \<and> averageRating m = 0
        \<and> createMovie maxYear req s = (Inr m, s\<lparr>movies := movies s @ [m]\<rparr>)"
    then obtain m where m: "m_id m = int (length (movies s)) + 1" "averageRating m = 0"
      and eq: "createMovie maxYear req s = (Inr m, s\<lparr>movies := movies s @ [m]\<rparr>)" by blast
    have "reviews_reference_movies (s\<lparr>movies := movies s @ [m]\<rparr>)"
      using movie_created.IH by (auto simp: reviews_reference_movies_def)
    with movie_created.IH m show ?thesis
      unfolding eq by (simp add: ids_sequential_movie_added ratings_aggregated_movie_added)
  qed
next
  case (review_added s a idp r body now)
  from addReview_cases [of a idp r body now s] show ?case
  proof
    assume "\<exists>e. addReview a idp r body now s = (Inl e, s) \<and> e \<in> {ValidationError, NotFound, Conflict}"
    with review_added.IH show ?thesis by auto
  next
    assume "\<exists>movie i res. 1 \<le> r \<and> r \<le> 5 \<and> body \<noteq> []
        \<and> find (\<lambda>m. Some (m_id m) = parseInt idp) (movies s) = Some movie
        \<and> find (\<lambda>review. Some (movieId review) = parseInt idp \<and> userId review = a) (reviews s) = None
        \<and> findIndex (\<lambda>m. Some (m_id m) = parseInt idp) (movies s) = Some i
        \<and> movies s ! i = movie
        \<and> res = (case find (\<lambda>u. u_id u = a) (users s) of
             None \<Rightarrow> Inl Internal
           | Some user \<Rightarrow> Inr \<lparr>rw_review = new_review s movie a r body now,
               rw_username = username user, rw_userProfilePicture = Some (profilePicture user)\<rparr>)
        \<and> addReview a idp r body now s = (res, with_review s i (new_review s movie a r body now))"
    then obtain i res
      where i: "findIndex (\<lambda>m. Some (m_id m) = parseInt idp) (movies s) = Some i"
        and eq: "addReview a idp r body now s =
          (res, with_review s i (new_review s (movies s ! i) a r body now))"
      by blast
    have "i < length (movies s)" using findIndex_SomeD [OF i] by simp
    with review_added.IH show ?thesis
      unfolding eq
      by (simp add: ids_sequential_with_review reviews_reference_with_review
          ratings_aggregated_with_review)
  qed
next
  case (watchlist_added s a idp m now)
  have "movies (snd (addToWatchlist a idp m now s)) = movies s"
    and "reviews (snd (addToWatchlist a idp m now s)) = reviews s"
    using addToWatchlist_cases [of a idp m now s] by auto
  from catalog_invariants_frame [OF this] watchlist_added.IH show ?case by simp
next
  case (watchlist_removed s a idp midp)
  have "movies (snd (removeFromWatchlist a idp midp s)) = movies s"
    and "reviews (snd (removeFromWatchlist a idp midp s)) = reviews s"
    using removeFromWatchlist_cases [of a idp midp s] by auto
  from catalog_invariants_frame [OF this] watchlist_removed.IH show ?case by simp
qed

lemma reachable_watchlist: "reachable s \<Longrightarrow> watchlist_pairs_distinct s"
proof (induction rule: reachable.induct)
  case seeded
  show ?case by (rule watchlist_pairs_distinct_initial)
next
  case (users_written s us)
  then show ?case by (simp add: watchlist_pairs_distinct_def)
next
  case (movie_created s maxYear req)
  then show ?case
    using createMovie_cases [of maxYear req s] by (auto simp: watchlist_pairs_distinct_def)
next
  case (review_added s a idp r body now)
  then show ?case
    using addReview_cases [of a idp r body now s]
    by (auto simp: watchlist_pairs_distinct_def with_review_simps)
next
  case (watchlist_added s a idp m now)
  from addToWatchlist_cases [of a idp m now s] show ?case
  proof
    assume "\<exists>e. addToWatchlist a idp m now s = (Inl e, s)"
    with watchlist_added.IH show ?thesis by auto
  next
    assume "\<exists>movie. 1 \<le> m \<and> Some a = parseInt idp
        \<and> find (\<lambda>mv. m_id mv = m) (movies s) = Some movie
        \<and> find (\<lambda>item. Some (w_userId item) = parseInt idp \<and> w_movieId item = m) (watchlists s) = None
        \<and> addToWatchlist a idp m now s =
            (Inr (\<lparr>w_id = int (length (watchlists s)) + 1, w_userId = a, w_movieId = m,
                   dateAdded = now\<rparr>, movie),
             s\<lparr>watchlists := watchlists s @
               [\<lparr>w_id = int (length (watchlists s)) + 1, w_userId = a, w_movieId = m,
                 dateAdded = now\<rparr>]\<rparr>)"
    then obtain movie where a: "Some a = parseInt idp"
      and none: "find (\<lambda>item. Some (w_userId item) = parseInt idp \<and> w_movieId item = m) (watchlists s) = None"
      and eq: "addToWatchlist a idp m now s =
            (Inr (\<lparr>w_id = int (length (watchlists s)) + 1, w_userId = a, w_movieId = m,
                   dateAdded = now\<rparr>, movie),
             s\<lparr>watchlists := watchlists s @
               [\<lparr>w_id = int (length (watchlists s)) + 1, w_userId = a, w_movieId = m,
                 dateAdded = now\<rparr>]\<rparr>)"
      by blast
    have "(a, m) \<notin> (\<lambda>item. (w_userId item, w_movieId item)) ` set (watchlists s)"
      using none a [symmetric] by (auto simp: find_None_iff)
    with watchlist_added.IH show ?thesis
      unfolding eq by (simp add: watchlist_pairs_distinct_def)
  qed
next
  case (watchlist_removed s a idp midp)
  then show ?case
    using removeFromWatchlist_cases [of a idp midp s]
    by (auto simp: watchlist_pairs_distinct_def map_splice1 distinct_splice1)
qed

section \<open>Evaluation of the examples\<close>

lemma parseInt_examples:
  "parseInt ''1'' = Some 1" "parseInt ''2'' = Some 2" "parseInt ''42'' = Some 42"
  by (simp_all add: parseInt_def isWhiteSpace_def isDigit_def Let_def digitValue_def)

lemma find_seed_movie:
  "find (\<lambda>m. m_id m = 2) seed_movies = Some (seed_movies ! 1)"
  "findIndex (\<lambda>m. m_id m = 2) seed_movies = Some 1"
  "find (\<lambda>m. m_id m = 42) seed_movies = None"
  by (simp_all add: seed_movies_def)

lemma addReview_alice:
  "addReview 1 ''2'' 5 ''great'' ''day1'' alice_state =
    (Inr \<lparr>rw_review = great_review, rw_username = ''alice'',
          rw_userProfilePicture = Some ''https://ui-avatars.com/api/?name=alice&background=random''\<rparr>,
     with_review alice_state 1 great_review)"
  by (simp add: addReview_def parseInt_examples alice_state_def initial_state_def
      find_seed_movie Let_def great_review_def new_review_def with_review_def alice_def)

lemma reviewed_state_eq: "reviewed_state = with_review alice_state 1 great_review"
  by (simp add: reviewed_state_def addReview_alice)

lemma reachable_alice_state: "reachable alice_state"
  unfolding alice_state_def by (intro reachable.intros)

lemma reachable_reviewed_state: "reachable reviewed_state"
  unfolding reviewed_state_def by (intro reachable.intros reachable_alice_state)

lemma reachable_watch4: "reachable watch4"
  unfolding watch4_def watch3_def watch2_def watch1_def
  by (intro reachable.intros reachable_alice_state)

lemma watch_states:
  "map w_id (watchlists watch2) = [1, 2]"
  "map w_movieId (watchlists watch2) = [1, 2]"
  "map w_id (watchlists watch3) = [2]"
  "map w_movieId (watchlists watch3) = [2]"
  "map w_id (watchlists watch4) = [2, 2]"
  "map w_movieId (watchlists watch4) = [2, 3]"
  by (simp_all add: watch4_def watch3_def watch2_def watch1_def addToWatchlist_def
      removeFromWatchlist_def parseInt_examples alice_state_def initial_state_def
      seed_movies_def splice1_def Let_def)

section \<open>Stored ratings\<close>




section \<open>Adding a review\<close>

lemma find_append_last:
  "P y \<Longrightarrow> find P (xs @ [y]) \<noteq> None"
  by (auto simp: find_None_iff)



section \<open>Watchlists\<close>

text \<open>
  Claim C9. In every reachable state: after a successful \<^verbatim>\<open>addToWatchlist\<close> a second one
  for the same account and movie fails with Conflict, and after a successful
  \<^verbatim>\<open>removeFromWatchlist\<close> a second one for the same account and movie fails with
  NotFound; the failing call leaves the store unchanged.
\<close>

theorem watchlist_add_remove_twice:
  assumes "reachable s"
  shows "(\<forall>x s1. addToWatchlist a idp m now s = (Inr x, s1)
          \<longrightarrow> addToWatchlist a idp m now2 s1 = (Inl Conflict, s1))
    \<and> (\<forall>s1. removeFromWatchlist a idp midp s = (Inr (), s1)
          \<longrightarrow> removeFromWatchlist a idp midp s1 = (Inl NotFound, s1))"
proof (intro conjI allI impI)
  fix x s1
  assume ok: "addToWatchlist a idp m now s = (Inr x, s1)"
  with addToWatchlist_cases [of a idp m now s] obtain movie
    where valid: "1 \<le> m" and auth: "Some a = parseInt idp"
      and movie: "find (\<lambda>mv. m_id mv = m) (movies s) = Some movie"
      and s1: "s1 = s\<lparr>watchlists := watchlists s @
               [\<lparr>w_id = int (length (watchlists s)) + 1, w_userId = a, w_movieId = m,
                 dateAdded = now\<rparr>]\<rparr>"
    by auto
  have "find (\<lambda>item. Some (w_userId item) = parseInt idp \<and> w_movieId item = m) (watchlists s1)
      \<noteq> None"
  proof -
    have "find (\<lambda>item. Some (w_userId item) = parseInt idp \<and> w_movieId item = m)
        (watchlists s @ [\<lparr>w_id = int (length (watchlists s)) + 1, w_userId = a, w_movieId = m,
          dateAdded = now\<rparr>]) \<noteq> None"
      using auth by (intro find_append_last) simp
    then show ?thesis by (simp add: s1)
  qed
  then obtain existing where
    "find (\<lambda>item. Some (w_userId item) = parseInt idp \<and> w_movieId item = m) (watchlists s1)
      = Some existing" by blast
  moreover have "find (\<lambda>mv. m_id mv = m) (movies s1) = Some movie"
    using movie by (simp add: s1)
  ultimately show "addToWatchlist a idp m now2 s1 = (Inl Conflict, s1)"
    using valid auth by (simp add: addToWatchlist_def)
next
  fix s1
  assume ok: "removeFromWatchlist a idp midp s = (Inr (), s1)"
  let ?P = "\<lambda>item. Some (w_userId item) = parseInt idp \<and> Some (w_movieId item) = parseInt midp"
  let ?pair = "\<lambda>item. (w_userId item, w_movieId item)"
  from ok removeFromWatchlist_cases [of a idp midp s] obtain i
    where auth: "Some a = parseInt idp"
      and i: "findIndex ?P (watchlists s) = Some i"
      and s1: "s1 = s\<lparr>watchlists := splice1 i (watchlists s)\<rparr>"
    by auto
  from findIndex_SomeD [OF i] have len: "i < length (watchlists s)" and Pi: "?P (watchlists s ! i)"
    by simp_all
  have distinct: "distinct (map ?pair (watchlists s))"
    using reachable_watchlist [OF assms] by (simp add: watchlist_pairs_distinct_def)
  have "\<not> ?P item" if "item \<in> set (splice1 i (watchlists s))" for item
  proof
    assume "?P item"
    with Pi have "w_userId item = w_userId (watchlists s ! i)"
      and "w_movieId item = w_movieId (watchlists s ! i)"
      by (metis option.inject)+
    then have "?pair item = map ?pair (watchlists s) ! i"
      using len by simp
    moreover have "?pair item \<in> set (splice1 i (map ?pair (watchlists s)))"
      using that unfolding map_splice1 [symmetric] by simp
    ultimately show False
      using splice1_nth_notin [OF distinct] len by simp
  qed
  then have "findIndex ?P (watchlists s1) = None"
    by (simp add: s1 findIndex_None_iff)
  then show "removeFromWatchlist a idp midp s1 = (Inl NotFound, s1)"
    using auth by (simp add: removeFromWatchlist_def)
qed

lemma addToWatchlist_alice:
  "addToWatchlist 1 ''1'' 1 ''day1'' alice_state =
    (Inr (\<lparr>w_id = 1, w_userId = 1, w_movieId = 1, dateAdded = ''day1''\<rparr>, seed_movies ! 0), watch1)"
  by (simp add: watch1_def addToWatchlist_def parseInt_examples alice_state_def
      initial_state_def seed_movies_def Let_def)

lemma removeFromWatchlist_alice:
  "removeFromWatchlist 1 ''1'' ''1'' watch2 = (Inr (), watch3)"
  by (simp add: watch3_def watch2_def watch1_def addToWatchlist_def removeFromWatchlist_def
      parseInt_examples alice_state_def initial_state_def seed_movies_def Let_def)

lemma reachable_watch2: "reachable watch2"
  unfolding watch2_def watch1_def by (intro reachable.intros reachable_alice_state)

theorem watchlist_add_remove_twice_witness:
  "addToWatchlist 1 ''1'' 1 ''day2'' watch1 = (Inl Conflict, watch1)
    \<and> removeFromWatchlist 1 ''1'' ''1'' watch3 = (Inl NotFound, watch3)"
proof -
  from watchlist_add_remove_twice [OF reachable_alice_state, of 1 "''1''" 1 "''day1''" "''day2''"]
    addToWatchlist_alice
  have "addToWatchlist 1 ''1'' 1 ''day2'' watch1 = (Inl Conflict, watch1)" by blast
  moreover from watchlist_add_remove_twice [OF reachable_watch2, of 1 "''1''" _ _ _ "''1''"]
    removeFromWatchlist_alice
  have "removeFromWatchlist 1 ''1'' ''1'' watch3 = (Inl NotFound, watch3)" by blast
  ultimately show ?thesis by blast
qed

text \<open>
  Claim C6. Every insert should assign an id that was never used in the collection.
  The server takes the length of the array plus one. For the watchlist, the only array
  elements are removed from, the id of an item that still exists is assigned again:
  account 1 adds movies 1 and 2 (ids 1 and 2), removes movie 1, and adds movie 3, which
  gets id 2 while the item of movie 2 still has it.
\<close>

theorem watchlist_id_reused:
  "reachable watch4 \<and> map w_id (watchlists watch3) = [2]
    \<and> map w_id (watchlists watch4) = [2, 2] \<and> map w_movieId (watchlists watch4) = [2, 3]"
  using reachable_watch4 watch_states by blast

text \<open>In the arrays nothing is removed from, the ids are the positions, counted from 1,
  in every reachable state.\<close>

lemma movie_and_review_ids_sequential:
  assumes "reachable s"
  shows "map m_id (movies s) = [1..int (length (movies s))]"
    and "map r_id (reviews s) = [1..int (length (reviews s))]"
  using reachable_catalog [OF assms] by (simp_all add: ids_sequential_def)

section \<open>Reviews of an unknown movie\<close>

text \<open>
  Claim C10. In every reachable state, \<^verbatim>\<open>GET /api/movies/:id/reviews\<close> for an id that
  no movie has succeeds with the empty list: the handler does not look the movie up.
  \<^verbatim>\<open>GET /api/movies/:id\<close>, which does, answers NotFound for the same id.
\<close>

theorem getMovieReviews_unknown_movie:
  assumes "reachable s"
    and "find (\<lambda>m. Some (m_id m) = parseInt idp) (movies s) = None"
  shows "getMovieReviews s idp = Inr [] \<and> getMovie s idp = Inl NotFound"
proof -
  have "Some (movieId review) \<noteq> parseInt idp" if "review \<in> set (reviews s)" for review
  proof -
    from reachable_catalog [OF assms(1)] that obtain m
      where "m \<in> set (movies s)" and "movieId review = m_id m"
      unfolding reviews_reference_movies_def by blast
    with assms(2) show ?thesis by (auto simp: find_None_iff)
  qed
  then have "filter (\<lambda>review. Some (movieId review) = parseInt idp) (reviews s) = []"
    by (simp add: filter_empty_conv)
  then show ?thesis
    using assms(2) by (simp add: getMovieReviews_def getMovie_def)
qed

theorem getMovieReviews_unknown_movie_witness:
  "getMovieReviews reviewed_state ''42'' = Inr [] \<and> getMovie reviewed_state ''42'' = Inl NotFound"
proof -
  have "find (\<lambda>m. Some (m_id m) = parseInt ''42'') (movies reviewed_state) = None"
    by (simp add: parseInt_examples reviewed_state_eq with_review_simps alice_state_def
        initial_state_def seed_movies_def find_None_iff set_update_subset_insert)
  from getMovieReviews_unknown_movie [OF reachable_reviewed_state this] show ?thesis .
qed

end
